theory Spec2Isabelle
  imports Main
begin

section \<open>Go values shared by the models\<close>

text \<open>
  A Go \<open>error\<close> is a value; \<open>nil\<close> is \<open>None\<close> of \<open>error option\<close>. The constructors
  below are the errors the modelled functions create or pass on. The errors that
  \<open>fmt.Errorf\<close> builds keep their arguments; the message each stands for is noted.
\<close>

datatype file_type = Regular | Directory | Symlink | Device | CharDevice | NamedPipe | Socket

record file_mode =
  ftype :: file_type
  perm :: nat

datatype error =
    PathError string string
  | EOF
  | ErrUnexpectedEOF
  | LibraryError string
  | NoTargetSumError
  | HashNoMatchError
  | ErrInterupt
  | TarReading error
  | TarSubdirectory string
  | TarUnexpectedMode string file_mode
  | TarOpeningFile string error
  | TarWritingFile string error
  | TarTooManyFiles
  | OpeningTempDir string
  | CreatingTempDir error
  | CreatingManifest string error
  | WritingManifest string error

text \<open>
  \<open>PathError op path\<close> is the \<open>*os.PathError\<close> of the \<open>os\<close> package. \<open>LibraryError\<close> is
  any other error of a library outside the repository (the rsync decoder and applier,
  the tar reader). \<open>NoTargetSumError\<close> and \<open>HashNoMatchError\<close> are the two variables
  of package \<open>rdiff\<close>, \<open>ErrInterupt\<close> the variable of package \<open>main\<close>. The \<open>Tar...\<close>
  constructors are the errors of \<open>ExtractOVA\<close>, in the order of the source:
  "tar: reading from archive", "tar: archive contains subdirectory", "tar: unexpected
  file mode", "tar: opening file", "tar: writing file", "tar: too many files in
  archive". The last four are the errors of \<open>Config.TempDir\<close> and
  \<open>Config.WriteManifest\<close>.
\<close>

subsection \<open>The file system\<close>

text \<open>
  Regular files by path (permission bits and content; a \<open>char\<close> is a byte) and the set
  of existing directories. Every file and directory is listed under its clean path
  (what \<open>filepath.Clean\<close> returns), and the operations below look a path up as it is
  given. Permissions are not enforced and the umask is not applied: an operation
  fails only for the structural reasons written out below.
\<close>

record os_file =
  fperm :: nat
  content :: string

record world =
  files :: "string \<rightharpoonup> os_file"
  dirs :: "string set"

text \<open>The directory a path lies in, as the kernel resolves it: everything before the
  last separator; \<open>.\<close> for a bare name and \<open>/\<close> for a name directly under the root.\<close>

definition parent :: "string \<Rightarrow> string" where
  "parent p =
     (let d = rev (dropWhile (\<lambda>c. c \<noteq> CHR ''/'') (rev p))
      in if d = [] then ''.'' else if d = ''/'' then ''/'' else butlast d)"

text \<open>\<open>os.Open(name)\<close>: read-only, succeeds on any existing file or directory.\<close>

definition os_Open :: "world \<Rightarrow> string \<Rightarrow> error option" where
  "os_Open w name =
     (if name \<in> dom (files w) \<or> name \<in> dirs w then None
      else Some (PathError ''open'' name))"

text \<open>\<open>os.Create(name)\<close> is \<open>OpenFile(name, O_RDWR|O_CREATE|O_TRUNC, 0666)\<close>: an
  existing file is truncated and keeps its permission bits, a missing one is created
  empty with 0666 (decimal 438).\<close>

definition os_Create :: "world \<Rightarrow> string \<Rightarrow> error + world" where
  "os_Create w name =
     (if name \<in> dirs w \<or> parent name \<notin> dirs w then Inl (PathError ''open'' name)
      else Inr (w\<lparr>files := (files w)(name \<mapsto>
              (case files w name of
                 None \<Rightarrow> \<lparr>fperm = 438, content = []\<rparr>
               | Some f \<Rightarrow> f\<lparr>content := []\<rparr>))\<rparr>))"

text \<open>\<open>os.OpenFile(name, O_CREATE|O_EXCL|O_WRONLY, perm)\<close>: fails when anything exists
  at \<open>name\<close>, otherwise creates the empty file.\<close>

definition os_OpenFile_excl :: "world \<Rightarrow> string \<Rightarrow> nat \<Rightarrow> error + world" where
  "os_OpenFile_excl w name p =
     (if name \<in> dom (files w) \<or> name \<in> dirs w \<or> parent name \<notin> dirs w
      then Inl (PathError ''open'' name)
      else Inr (w\<lparr>files := (files w)(name \<mapsto> \<lparr>fperm = p, content = []\<rparr>)\<rparr>))"

text \<open>Writing to an open file appends to its content.\<close>

definition write_file :: "world \<Rightarrow> string \<Rightarrow> string \<Rightarrow> world" where
  "write_file w name bs =
     (case files w name of
        None \<Rightarrow> w
      | Some f \<Rightarrow> w\<lparr>files := (files w)(name \<mapsto> f\<lparr>content := content f @ bs\<rparr>)\<rparr>)"

section \<open>rdiff.Patch\<close>

text \<open>
  \<open>Patch\<close> drives the rsync library, which is not part of the repository. What the
  library does in one invocation is the record \<open>delta_run\<close>:
  \<^item> \<open>header\<close>: the result of \<open>deltaDecode.Header(proto.TypeDelta)\<close>, the block size or
    an error (\<open>EOF\<close> on a truncated header);
  \<^item> \<open>written\<close>: the bytes \<open>rs.ApplyDelta\<close> wrote to the target file before it returned;
  \<^item> \<open>apply_error\<close>: the result of \<open>rs.ApplyDelta\<close>;
  \<^item> \<open>decodeError\<close>: the result of \<open>deltaDecode.ReadOperations\<close>, assigned before
    \<open>ops\<close> is closed and so before \<open>ApplyDelta\<close> returns without error;
  \<^item> \<open>hashOp_Data\<close>: the \<open>Data\<close> field of the operation received from \<open>hashOps\<close>;
    \<open>None\<close> is Go's \<open>nil\<close>, the zero operation received when the decoder finished
    without sending a checksum record (the decoder is taken to close \<open>hashOps\<close> when
    it is done, so that the receive returns);
  \<^item> \<open>hasher_Sum\<close>: \<open>hasher.Sum(nil)\<close>, the MD5 digest the library accumulated over the
    bytes it wrote to the target.
\<close>

record delta_run =
  header :: "error + nat"
  written :: string
  apply_error :: "error option"
  decodeError :: "error option"
  hashOp_Data :: "string option"
  hasher_Sum :: string

text \<open>The function returns its error and the file system it leaves behind. The
  deferred \<open>Close\<close> calls change nothing in the model.\<close>

definition Patch ::
  "delta_run \<Rightarrow> string \<Rightarrow> string \<Rightarrow> string \<Rightarrow> bool \<Rightarrow> world \<Rightarrow> error option \<times> world" where
  "Patch run basis delta newfile checkFile w =
     (case os_Open w basis of
        Some e \<Rightarrow> (Some e, w)
      | None \<Rightarrow>
     (case os_Open w delta of
        Some e \<Rightarrow> (Some e, w)
      | None \<Rightarrow>
     (case os_Create w newfile of
        Inl e \<Rightarrow> (Some e, w)
      | Inr w1 \<Rightarrow>
     (case header run of
        Inl e \<Rightarrow> (if e = EOF then (Some ErrUnexpectedEOF, w1) else (Some e, w1))
      | Inr blockSize \<Rightarrow>
     (let w2 = write_file w1 newfile (written run) in
      case apply_error run of
        Some e \<Rightarrow> (Some e, w2)
      | None \<Rightarrow>
     (case decodeError run of
        Some e \<Rightarrow> (Some e, w2)
      | None \<Rightarrow>
      if \<not> checkFile then (None, w2)
      else
     (case hashOp_Data run of
        None \<Rightarrow> (Some NoTargetSumError, w2)
      | Some d \<Rightarrow>
      if d \<noteq> hasher_Sum run then (Some HashNoMatchError, w2)
      else (None, w2))))))))"

text \<open>A small file system and three runs of the library used as concrete inputs:
  the twelve-byte copy of the specification's scenario, with a matching checksum
  record, with none, and with a wrong one. In \<open>disk_taken\<close> a file already exists at
  the target path.\<close>

definition disk0 :: world where
  "disk0 = \<lparr>files = [''/in/basis'' \<mapsto> \<lparr>fperm = 420, content = ''AAAABBBBCCCC''\<rparr>,
                    ''/in/delta'' \<mapsto> \<lparr>fperm = 420, content = ''delta''\<rparr>],
           dirs = {''/'', ''/in'', ''/tmp''}\<rparr>"

definition disk_taken :: world where
  "disk_taken = disk0\<lparr>files := (files disk0)(''/tmp/image.vmdk'' \<mapsto>
                   \<lparr>fperm = 384, content = ''earlier image''\<rparr>)\<rparr>"

definition run_ok :: delta_run where
  "run_ok = \<lparr>header = Inr 4, written = ''AAAABBBBCCCC'', apply_error = None,
            decodeError = None, hashOp_Data = Some ''digest-of-target'',
            hasher_Sum = ''digest-of-target''\<rparr>"

definition run_nosum :: delta_run where
  "run_nosum = run_ok\<lparr>hashOp_Data := None\<rparr>"

definition run_badsum :: delta_run where
  "run_badsum = run_ok\<lparr>hashOp_Data := Some ''digest-of-other''\<rparr>"

section \<open>ExtractOVA\<close>

text \<open>
  \<open>filepath.Base\<close> of the Go standard library on Unix: the empty path gives \<open>.\<close>,
  trailing separators are stripped, the last element is returned, and a path of
  separators only gives \<open>/\<close>.
\<close>

definition Base :: "string \<Rightarrow> string" where
  "Base path =
     (if path = [] then ''.''
      else
        let stripped = rev (dropWhile (\<lambda>c. c = CHR ''/'') (rev path));
            element = rev (takeWhile (\<lambda>c. c \<noteq> CHR ''/'') (rev stripped))
        in if element = [] then ''/'' else element)"

text \<open>
  \<open>filepath.Clean\<close> of the Go standard library on Unix. The path is read element by
  element (\<open>split_path\<close> cuts it at every separator): an empty element and \<open>.\<close> are
  dropped; \<open>..\<close> removes the last element written, unless there is none or it is itself
  a \<open>..\<close> that could not be resolved, in which case \<open>..\<close> is dropped in a rooted path
  and written in a relative one; any other element is written. The elements written
  are joined by single separators, after the leading separator of a rooted path; the
  empty result is \<open>.\<close>.
\<close>

fun split_path :: "string \<Rightarrow> string list" where
  "split_path [] = [[]]"
| "split_path (c # cs) =
     (if c = CHR ''/'' then [] # split_path cs
      else (case split_path cs of [] \<Rightarrow> [[c]] | x # xs \<Rightarrow> (c # x) # xs))"

fun join_path :: "string list \<Rightarrow> string" where
  "join_path [] = []"
| "join_path [x] = x"
| "join_path (x # y # ys) = x @ ''/'' @ join_path (y # ys)"

definition clean_step :: "bool \<Rightarrow> string list \<Rightarrow> string \<Rightarrow> string list" where
  "clean_step rooted out elem =
     (if elem = [] \<or> elem = ''.'' then out
      else if elem = ''..'' then
        (if out \<noteq> [] \<and> last out \<noteq> ''..'' then butlast out
         else if rooted then out
         else out @ [''..''])
      else out @ [elem])"

definition Clean :: "string \<Rightarrow> string" where
  "Clean path =
     (if path = [] then ''.''
      else
        let rooted = (hd path = CHR ''/'');
            out = join_path (foldl (clean_step rooted) [] (split_path path))
        in if rooted then ''/'' @ out else if out = [] then ''.'' else out)"

text \<open>What \<open>Clean\<close> writes is never an empty element and never \<open>.\<close>.\<close>

definition written_ok :: "string \<Rightarrow> bool" where
  "written_ok elem = (elem \<noteq> [] \<and> elem \<noteq> ''.'')"

text \<open>
  \<open>filepath.Join(dir, elem)\<close>: the elements from the first non-empty one on are joined
  by separators and the result is cleaned; with no non-empty element the result is
  the empty string.
\<close>

definition Join :: "string \<Rightarrow> string \<Rightarrow> string" where
  "Join dir elem =
     (if dir \<noteq> [] then Clean (dir @ ''/'' @ elem)
      else if elem \<noteq> [] then Clean elem
      else [])"

text \<open>
  What \<open>tar.NewReader(tf)\<close> yields, in order: each call of \<open>tr.Next()\<close> gives the next
  item, and \<open>io.EOF\<close> once the list is used up. An \<open>Entry\<close> carries its header (the
  name and \<open>h.FileInfo().Mode()\<close>), the bytes \<open>io.Copy\<close> can read of its body, and the
  error that ends that read (\<open>None\<close> when the body is read to its end). \<open>Corrupt e\<close> is a
  call of \<open>tr.Next()\<close> that returns the error \<open>e\<close>, which is not \<open>io.EOF\<close>.
\<close>

record tar_Header =
  Name :: string
  Mode :: file_mode

datatype tar_item = Entry tar_Header string "error option" | Corrupt error

definition IsRegular :: "file_mode \<Rightarrow> bool" where
  "IsRegular m = (ftype m = Regular)"

text \<open>
  The loop \<open>for ; limit >= 0; limit-- { ... }\<close>. \<open>Inl e\<close> is \<open>return e\<close> from inside the
  loop; \<open>Inr limit\<close> is leaving the loop (by \<open>break\<close> at the end of the archive, or
  because the condition fails) with that value of \<open>limit\<close>. The file system is returned
  in both cases: nothing written is taken back.
\<close>

fun extract_loop :: "string \<Rightarrow> int \<Rightarrow> tar_item list \<Rightarrow> world \<Rightarrow> (error + int) \<times> world" where
  "extract_loop dirname limit tr w =
     (if limit \<ge> 0 then
        (case tr of
           [] \<Rightarrow> (Inr limit, w)
         | Corrupt e # rest \<Rightarrow> (Inl (TarReading e), w)
         | Entry h body read_error # rest \<Rightarrow>
             if Base (Name h) \<noteq> Name h then (Inl (TarSubdirectory (Name h)), w)
             else if \<not> IsRegular (Mode h) then (Inl (TarUnexpectedMode (Name h) (Mode h)), w)
             else
               (let path = Join dirname (Name h) in
                case os_OpenFile_excl w path (perm (Mode h)) of
                  Inl e \<Rightarrow> (Inl (TarOpeningFile path e), w)
                | Inr w1 \<Rightarrow>
                   (let w2 = write_file w1 path body in
                    case read_error of
                      Some e \<Rightarrow> (Inl (TarWritingFile path e), w2)
                    | None \<Rightarrow> extract_loop dirname (limit - 1) rest w2)))
      else (Inr limit, w))"

definition ExtractOVA :: "tar_item list \<Rightarrow> string \<Rightarrow> string \<Rightarrow> world \<Rightarrow> error option \<times> world" where
  "ExtractOVA tr ova dirname w =
     (case os_Open w ova of
        Some e \<Rightarrow> (Some e, w)
      | None \<Rightarrow>
         (case extract_loop dirname 100 tr w of
            (Inl e, w') \<Rightarrow> (Some e, w')
          | (Inr limit, w') \<Rightarrow>
              if limit \<le> 0 then (Some TarTooManyFiles, w') else (None, w')))"

text \<open>Archives of \<open>n\<close> small regular files with the distinct names \<open>a\<close>, \<open>aa\<close>,
  \<open>aaa\<close>, ... (mode 0644, decimal 420), and a file system with an archive file and an
  empty destination directory.\<close>

definition entry_name :: "nat \<Rightarrow> string" where
  "entry_name i = replicate (Suc i) (CHR ''a'')"

definition plain_entry :: "nat \<Rightarrow> tar_item" where
  "plain_entry i =
     Entry \<lparr>Name = entry_name i, Mode = \<lparr>ftype = Regular, perm = 420\<rparr>\<rparr> ''data'' None"

definition plain_archive :: "nat \<Rightarrow> tar_item list" where
  "plain_archive n = map plain_entry [0..<n]"

definition disk_ova :: world where
  "disk_ova = \<lparr>files = [''/in/image.ova'' \<mapsto> \<lparr>fperm = 420, content = ''tar''\<rparr>],
              dirs = {''/'', ''/in'', ''/out''}\<rparr>"

text \<open>
  Vocabulary for statements about archives. An item is flat and regular when the loop
  accepts it and its name is none of \<open>/\<close>, \<open>.\<close> and \<open>..\<close> (which pass the \<open>Base\<close>
  test but join to a directory); an archive is valid when every item is and no name
  occurs twice. An item is absent when nothing exists at the path it is extracted to.
  \<open>write_entries\<close> is the file system with every entry of a list created with its
  permission bits and filled with its body.
\<close>

fun item_name :: "tar_item \<Rightarrow> string" where
  "item_name (Entry h body r) = Name h"
| "item_name (Corrupt e) = []"

fun flat_regular :: "tar_item \<Rightarrow> bool" where
  "flat_regular (Entry h body r) =
     (Base (Name h) = Name h \<and> Name h \<noteq> ''/'' \<and> Name h \<noteq> ''.'' \<and> Name h \<noteq> ''..'' \<and>
      IsRegular (Mode h) \<and> r = None)"
| "flat_regular (Corrupt e) = False"

definition valid_archive :: "tar_item list \<Rightarrow> bool" where
  "valid_archive es = (list_all flat_regular es \<and> distinct (map item_name es))"

definition absent :: "string \<Rightarrow> world \<Rightarrow> tar_item \<Rightarrow> bool" where
  "absent dirname w e =
     (Join dirname (item_name e) \<notin> dom (files w) \<and> Join dirname (item_name e) \<notin> dirs w)"

fun write_entries :: "string \<Rightarrow> tar_item list \<Rightarrow> world \<Rightarrow> world" where
  "write_entries dirname [] w = w"
| "write_entries dirname (Entry h body r # es) w =
     write_entries dirname es
       (w\<lparr>files := (files w)(Join dirname (Name h) \<mapsto>
             \<lparr>fperm = perm (Mode h), content = body\<rparr>)\<rparr>)"
| "write_entries dirname (Corrupt e # es) w = write_entries dirname es w"

text \<open>Three entries the loop rejects: a regular file below a subdirectory, a
  symbolic link with a flat name, and a directory under the name tar gives it, with a
  trailing separator.\<close>

definition dir_header :: tar_Header where
  "dir_header = \<lparr>Name = ''dir/'', Mode = \<lparr>ftype = Directory, perm = 493\<rparr>\<rparr>"

definition subdir_entry :: tar_item where
  "subdir_entry =
     Entry \<lparr>Name = ''sub/file'', Mode = \<lparr>ftype = Regular, perm = 420\<rparr>\<rparr> ''data'' None"

definition symlink_entry :: tar_item where
  "symlink_entry =
     Entry \<lparr>Name = ''link'', Mode = \<lparr>ftype = Symlink, perm = 511\<rparr>\<rparr> [] None"

section \<open>Cancellation: Config, CancelWriter, CancelReader\<close>

text \<open>
  A value of type \<open>chan struct{}\<close> is \<open>nil\<close> (\<open>None\<close>) or a reference to a channel
  object (\<open>Some a\<close>); copies of the value share the object. Nothing is ever sent on the
  stop channel, so all there is to know of an object is whether it has been closed:
  the set \<open>closed\<close> holds the closed ones. A receive in a \<open>select\<close> with a \<open>default\<close>
  branch is taken exactly when the channel is closed; on a \<open>nil\<close> channel it never is.
\<close>

type_synonym chan = "nat option"

definition fired :: "nat set \<Rightarrow> chan \<Rightarrow> bool" where
  "fired closed ch = (case ch of None \<Rightarrow> False | Some a \<Rightarrow> a \<in> closed)"

datatype 'a outcome = Returns 'a | Panics string

record Config =
  Image :: string
  Stemcell :: string
  Manifest :: string
  Sha1sum :: string
  tmpdir :: string
  stop :: chan

text \<open>The wrapped stream is a state of any type \<open>'s\<close>; its \<open>Write\<close> or \<open>Read\<close> method
  is a parameter of the wrapper's method. \<open>Write\<close> takes the bytes and returns
  \<open>(n, err)\<close>; \<open>Read\<close> takes the buffer and returns \<open>(n, err)\<close> and the buffer as filled.\<close>

record 's CancelWriter =
  cw_w :: 's
  cw_stop :: chan

record 's CancelReader =
  cr_r :: 's
  cr_stop :: chan

definition CancelWriter_Write ::
  "('s \<Rightarrow> string \<Rightarrow> (int \<times> error option) \<times> 's) \<Rightarrow> nat set \<Rightarrow> 's CancelWriter \<Rightarrow> string
     \<Rightarrow> (int \<times> error option) \<times> 's CancelWriter" where
  "CancelWriter_Write Write closed cw p =
     (if fired closed (cw_stop cw) then ((0, Some ErrInterupt), cw)
      else (case Write (cw_w cw) p of (res, s') \<Rightarrow> (res, cw\<lparr>cw_w := s'\<rparr>)))"

definition CancelReader_Read ::
  "('s \<Rightarrow> string \<Rightarrow> (int \<times> error option \<times> string) \<times> 's) \<Rightarrow> nat set \<Rightarrow> 's CancelReader \<Rightarrow> string
     \<Rightarrow> (int \<times> error option \<times> string) \<times> 's CancelReader" where
  "CancelReader_Read Read closed cr p =
     (if fired closed (cr_stop cr) then ((0, Some ErrInterupt, p), cr)
      else (case Read (cr_r cr) p of (res, s') \<Rightarrow> (res, cr\<lparr>cr_r := s'\<rparr>)))"

definition Writer :: "Config \<Rightarrow> 's \<Rightarrow> 's CancelWriter" where
  "Writer c w = \<lparr>cw_w = w, cw_stop = stop c\<rparr>"

definition Reader :: "Config \<Rightarrow> 's \<Rightarrow> 's CancelReader" where
  "Reader c r = \<lparr>cr_r = r, cr_stop = stop c\<rparr>"

text \<open>A caller that goes on calling: the results of one \<open>Write\<close> per chunk (one
  \<open>Read\<close> per buffer), in order, and the wrapper afterwards.\<close>

fun write_calls ::
  "('s \<Rightarrow> string \<Rightarrow> (int \<times> error option) \<times> 's) \<Rightarrow> nat set \<Rightarrow> 's CancelWriter \<Rightarrow> string list
     \<Rightarrow> (int \<times> error option) list \<times> 's CancelWriter" where
  "write_calls Write closed cw [] = ([], cw)"
| "write_calls Write closed cw (p # ps) =
     (case CancelWriter_Write Write closed cw p of
        (res, cw') \<Rightarrow> (case write_calls Write closed cw' ps of (rs, cw'') \<Rightarrow> (res # rs, cw'')))"

fun read_calls ::
  "('s \<Rightarrow> string \<Rightarrow> (int \<times> error option \<times> string) \<times> 's) \<Rightarrow> nat set \<Rightarrow> 's CancelReader \<Rightarrow> string list
     \<Rightarrow> (int \<times> error option \<times> string) list \<times> 's CancelReader" where
  "read_calls Read closed cr [] = ([], cr)"
| "read_calls Read closed cr (p # ps) =
     (case CancelReader_Read Read closed cr p of
        (res, cr') \<Rightarrow> (case read_calls Read closed cr' ps of (rs, cr'') \<Rightarrow> (res # rs, cr'')))"

text \<open>The same calls on the underlying stream itself.\<close>

fun plain_calls :: "('s \<Rightarrow> string \<Rightarrow> 'r \<times> 's) \<Rightarrow> 's \<Rightarrow> string list \<Rightarrow> 'r list \<times> 's" where
  "plain_calls f s [] = ([], s)"
| "plain_calls f s (p # ps) =
     (case f s p of (res, s') \<Rightarrow> (case plain_calls f s' ps of (rs, s'') \<Rightarrow> (res # rs, s'')))"

text \<open>Two underlying streams to run the wrappers on: a buffer that appends what is
  written to it, and a reader that hands out its remaining bytes, as much as the
  caller's buffer takes, and reports \<open>io.EOF\<close> once it is empty.\<close>

definition buffer_Write :: "string \<Rightarrow> string \<Rightarrow> (int \<times> error option) \<times> string" where
  "buffer_Write s p = ((int (length p), None), s @ p)"

definition buffer_Read :: "string \<Rightarrow> string \<Rightarrow> (int \<times> error option \<times> string) \<times> string" where
  "buffer_Read s p =
     (if s = [] then ((0, Some EOF, p), s)
      else ((int (min (length p) (length s)), None,
             take (length p) s @ drop (length s) p), drop (length p) s))"

text \<open>\<open>os.RemoveAll(path)\<close> removes the directory and everything below it.\<close>

definition under :: "string \<Rightarrow> string \<Rightarrow> bool" where
  "under d p = (p = d \<or> take (length d + 1) p = d @ ''/'')"

definition RemoveAll :: "world \<Rightarrow> string \<Rightarrow> world" where
  "RemoveAll w d =
     w\<lparr>files := (\<lambda>p. if under d p then None else files w p),
       dirs := {p. p \<in> dirs w \<and> \<not> under d p}\<rparr>"

definition Cleanup :: "Config \<Rightarrow> world \<Rightarrow> world" where
  "Cleanup c w = (if tmpdir c \<noteq> [] then RemoveAll w (tmpdir c) else w)"

text \<open>
  \<open>Stop\<close> is \<open>defer c.Cleanup(); close(c.stop)\<close>. Closing a \<open>nil\<close> channel and closing a
  closed channel panic; the deferred \<open>Cleanup\<close> runs in every case, also while the
  panic unwinds. The result is the outcome, the closed channels and the file system.
\<close>

definition Stop :: "Config \<Rightarrow> nat set \<Rightarrow> world \<Rightarrow> unit outcome \<times> nat set \<times> world" where
  "Stop c closed w =
     (case stop c of
        None \<Rightarrow> (Panics ''close of nil channel'', closed, Cleanup c w)
      | Some a \<Rightarrow>
          if a \<in> closed then (Panics ''close of closed channel'', closed, Cleanup c w)
          else (Returns (), insert a closed, Cleanup c w))"

section \<open>Config.TempDir and Config.WriteManifest\<close>

text \<open>
  \<open>TempDir\<close> returns the directory of the \<open>Config\<close> when it has one and \<open>os.Stat\<close> finds
  it, and creates one with \<open>ioutil.TempDir\<close> otherwise. The name \<open>ioutil.TempDir\<close>
  picks (or its error) is the parameter \<open>mktemp\<close>.
\<close>

definition TempDir :: "error + string \<Rightarrow> Config \<Rightarrow> world \<Rightarrow> (error + string) \<times> Config \<times> world" where
  "TempDir mktemp c w =
     (if tmpdir c \<noteq> [] then
        (if tmpdir c \<in> dirs w \<or> tmpdir c \<in> dom (files w) then (Inr (tmpdir c), c, w)
         else (Inl (OpeningTempDir (tmpdir c)), c, w))
      else
        (case mktemp of
           Inl e \<Rightarrow> (Inl (CreatingTempDir e), c, w)
         | Inr name \<Rightarrow> (Inr name, c\<lparr>tmpdir := name\<rparr>, w\<lparr>dirs := insert name (dirs w)\<rparr>)))"

definition manifest_text :: "string \<Rightarrow> string \<Rightarrow> string" where
  "manifest_text version sha1 =
     ''---'' @ [CHR 0x0A] @
     ''name: bosh-vsphere-esxi-windows-2012R2-go_agent'' @ [CHR 0x0A] @
     ''version: '' @ version @ [CHR 0x0A] @
     ''sha1: '' @ sha1 @ [CHR 0x0A] @
     ''operating_system: windows2012R2'' @ [CHR 0x0A] @
     ''cloud_properties:'' @ [CHR 0x0A] @
     ''  infrastructure: vsphere'' @ [CHR 0x0A] @
     ''  hypervisor: esxi'' @ [CHR 0x0A]"

text \<open>
  \<open>WriteManifest\<close>, with the global \<open>Version\<close>, the outcome of \<open>ioutil.TempDir\<close> and the
  error of the \<open>fmt.Fprintf\<close> to the file (\<open>None\<close> when the write succeeds) as
  parameters. The panic comes first; \<open>c.Manifest\<close> is assigned before the file is
  opened; a failed write removes the file. Mode 0644 is decimal 420.
\<close>

definition WriteManifest ::
  "string \<Rightarrow> error + string \<Rightarrow> error option \<Rightarrow> Config \<Rightarrow> world
     \<Rightarrow> error option outcome \<times> Config \<times> world" where
  "WriteManifest Version mktemp write_error c w =
     (if Manifest c \<noteq> [] then (Panics (''already created manifest: '' @ Manifest c), c, w)
      else
        (case TempDir mktemp c w of
           (Inl e, c1, w1) \<Rightarrow> (Returns (Some e), c1, w1)
         | (Inr dir, c1, w1) \<Rightarrow>
            (let c2 = c1\<lparr>Manifest := Join dir ''stemcell.MF''\<rparr> in
             case os_OpenFile_excl w1 (Manifest c2) 420 of
               Inl e \<Rightarrow> (Returns (Some (CreatingManifest (Manifest c2) e)), c2, w1)
             | Inr w2 \<Rightarrow>
                (case write_error of
                   Some e \<Rightarrow>
                     (Returns (Some (WritingManifest (Manifest c2) e)), c2,
                      w2\<lparr>files := (files w2)(Manifest c2 := None)\<rparr>)
                 | None \<Rightarrow>
                     (Returns None, c2,
                      write_file w2 (Manifest c2) (manifest_text Version (Sha1sum c2)))))))"

text \<open>A \<open>Config\<close> as \<open>main\<close> makes it, with an open stop channel, and the same once it
  has a temporary directory.\<close>

definition config0 :: Config where
  "config0 = \<lparr>Image = [], Stemcell = [], Manifest = [], Sha1sum = [], tmpdir = [],
              stop = Some 0\<rparr>"

definition config1 :: Config where
  "config1 = config0\<lparr>tmpdir := ''/tmp/ova2stemcell-1''\<rparr>"

definition disk_tmp :: world where
  "disk_tmp = \<lparr>files = [''/tmp/ova2stemcell-1/image.vmdk'' \<mapsto> \<lparr>fperm = 438, content = ''disk''\<rparr>],
              dirs = {''/'', ''/tmp'', ''/tmp/ova2stemcell-1''}\<rparr>"

section \<open>Properties of rdiff.Patch\<close>

lemma os_Open_disk0:
  "os_Open disk0 ''/in/basis'' = None" "os_Open disk0 ''/in/delta'' = None"
  by (simp_all add: os_Open_def disk0_def)

lemma os_Create_disk0:
  "os_Create disk0 ''/tmp/image.vmdk'' =
     Inr (disk0\<lparr>files := (files disk0)(''/tmp/image.vmdk'' \<mapsto> \<lparr>fperm = 438, content = []\<rparr>)\<rparr>)"
  by (simp add: os_Create_def disk0_def parent_def)

lemma run_nosum_fields:
  "header run_nosum = Inr 4" "apply_error run_nosum = None" "decodeError run_nosum = None"
  "hashOp_Data run_nosum = None"
  by (simp_all add: run_nosum_def run_ok_def)

lemma run_badsum_fields:
  "header run_badsum = Inr 4" "apply_error run_badsum = None" "decodeError run_badsum = None"
  "hashOp_Data run_badsum = Some ''digest-of-other''" "hasher_Sum run_badsum = ''digest-of-target''"
  by (simp_all add: run_badsum_def run_ok_def)

text \<open>
  C1. Once \<open>Patch\<close> has opened its files, read the header, applied the delta and
  decoded the operations without error, verification decides the result. With
  \<open>checkFile = true\<close>: no checksum record (\<open>hashOp.Data == nil\<close>) gives
  \<open>NoTargetSumError\<close>; a record that differs from the digest accumulated over the bytes
  written to the target gives \<open>HashNoMatchError\<close>; a record equal to it gives success.
  With \<open>checkFile = false\<close> the call succeeds whatever the record and the digest
  are, a missing or a wrong record included.
\<close>

theorem Patch_checksum_verification:
  assumes "os_Open w basis = None" and "os_Open w delta = None"
    and "os_Create w newfile = Inr w1" and "header run = Inr blockSize"
    and "apply_error run = None" and "decodeError run = None"
  shows "(hashOp_Data run = None \<longrightarrow>
            fst (Patch run basis delta newfile True w) = Some NoTargetSumError)
       \<and> (\<forall>d. hashOp_Data run = Some d \<and> d \<noteq> hasher_Sum run \<longrightarrow>
            fst (Patch run basis delta newfile True w) = Some HashNoMatchError)
       \<and> (hashOp_Data run = Some (hasher_Sum run) \<longrightarrow>
            fst (Patch run basis delta newfile True w) = None)
       \<and> (\<forall>rec sum. fst (Patch (run\<lparr>hashOp_Data := rec, hasher_Sum := sum\<rparr>)
                             basis delta newfile False w) = None)"
  using assms by (simp add: Patch_def Let_def)

text \<open>The theorem at the twelve-byte scenario: without a record and with a wrong
  one, verification on and off.\<close>

theorem Patch_checksum_verification_witness:
  "fst (Patch run_nosum ''/in/basis'' ''/in/delta'' ''/tmp/image.vmdk'' True disk0)
     = Some NoTargetSumError
   \<and> fst (Patch run_badsum ''/in/basis'' ''/in/delta'' ''/tmp/image.vmdk'' True disk0)
     = Some HashNoMatchError
   \<and> fst (Patch run_nosum ''/in/basis'' ''/in/delta'' ''/tmp/image.vmdk'' False disk0) = None
   \<and> fst (Patch run_badsum ''/in/basis'' ''/in/delta'' ''/tmp/image.vmdk'' False disk0) = None"
proof -
  note a = Patch_checksum_verification [OF os_Open_disk0 os_Create_disk0 run_nosum_fields(1,2,3)]
  note b = Patch_checksum_verification [OF os_Open_disk0 os_Create_disk0 run_badsum_fields(1,2,3)]
  have same: "run_nosum\<lparr>hashOp_Data := None, hasher_Sum := ''digest-of-target''\<rparr> = run_nosum"
    "run_badsum\<lparr>hashOp_Data := Some ''digest-of-other'', hasher_Sum := ''digest-of-target''\<rparr>
       = run_badsum"
    by (simp_all add: run_nosum_def run_badsum_def run_ok_def)
  from a run_nosum_fields(4)
  have 1: "fst (Patch run_nosum ''/in/basis'' ''/in/delta'' ''/tmp/image.vmdk'' True disk0)
             = Some NoTargetSumError"
    by blast
  from b run_badsum_fields(4,5)
  have 2: "fst (Patch run_badsum ''/in/basis'' ''/in/delta'' ''/tmp/image.vmdk'' True disk0)
             = Some HashNoMatchError"
    by simp
  from a have "fst (Patch (run_nosum\<lparr>hashOp_Data := None, hasher_Sum := ''digest-of-target''\<rparr>)
             ''/in/basis'' ''/in/delta'' ''/tmp/image.vmdk'' False disk0) = None"
    by blast
  then have 3: "fst (Patch run_nosum ''/in/basis'' ''/in/delta'' ''/tmp/image.vmdk'' False disk0) = None"
    by (simp only: same)
  from b have "fst (Patch (run_badsum\<lparr>hashOp_Data := Some ''digest-of-other'',
                 hasher_Sum := ''digest-of-target''\<rparr>)
             ''/in/basis'' ''/in/delta'' ''/tmp/image.vmdk'' False disk0) = None"
    by blast
  then have 4: "fst (Patch run_badsum ''/in/basis'' ''/in/delta'' ''/tmp/image.vmdk'' False disk0) = None"
    by (simp only: same)
  from 1 2 3 4 show ?thesis by blast
qed

text \<open>
  C4, as stated, fails: \<open>Patch\<close> never removes the file it created. In the
  twelve-byte scenario without a checksum record the call fails with
  \<open>NoTargetSumError\<close> and the target is still there, holding the twelve bytes.
\<close>

theorem Patch_failure_leaves_target:
  "fst (Patch run_nosum ''/in/basis'' ''/in/delta'' ''/tmp/image.vmdk'' True disk0)
     = Some NoTargetSumError
   \<and> files (snd (Patch run_nosum ''/in/basis'' ''/in/delta'' ''/tmp/image.vmdk'' True disk0))
       ''/tmp/image.vmdk'' = Some \<lparr>fperm = 438, content = ''AAAABBBBCCCC''\<rparr>"
  by (simp add: Patch_def os_Open_disk0 os_Create_disk0 run_nosum_fields write_file_def
      run_nosum_def run_ok_def)

text \<open>
  C4, amended. Whenever \<open>Patch\<close> gets as far as creating the target, the target
  exists when the call returns, whether it fails or succeeds: it holds what
  \<open>ApplyDelta\<close> wrote, and nothing when the header could not be read. No other file
  is touched. When \<open>Patch\<close> fails before that (the basis or the delta cannot be opened,
  the target cannot be created) it fails and leaves the file system as it was.
  Deleting is left to the caller.
\<close>

theorem Patch_never_deletes_target:
  "(os_Open w basis = None \<and> os_Open w delta = None \<and> os_Create w newfile = Inr w1 \<longrightarrow>
      (\<exists>f. files (snd (Patch run basis delta newfile checkFile w)) newfile = Some f \<and>
           content f = (case header run of Inl e \<Rightarrow> [] | Inr blockSize \<Rightarrow> written run)) \<and>
      (\<forall>p. p \<noteq> newfile \<longrightarrow>
           files (snd (Patch run basis delta newfile checkFile w)) p = files w p))
   \<and> (os_Open w basis \<noteq> None \<or> os_Open w delta \<noteq> None \<or> isl (os_Create w newfile) \<longrightarrow>
      fst (Patch run basis delta newfile checkFile w) \<noteq> None \<and>
      snd (Patch run basis delta newfile checkFile w) = w)"
proof (intro conjI impI)
  assume a: "os_Open w basis = None \<and> os_Open w delta = None \<and> os_Create w newfile = Inr w1"
  then have w1: "w1 = w\<lparr>files := (files w)(newfile \<mapsto>
              (case files w newfile of
                 None \<Rightarrow> \<lparr>fperm = 438, content = []\<rparr>
               | Some f \<Rightarrow> f\<lparr>content := []\<rparr>))\<rparr>"
    by (auto simp: os_Create_def split: if_splits)
  show "\<exists>f. files (snd (Patch run basis delta newfile checkFile w)) newfile = Some f \<and>
           content f = (case header run of Inl e \<Rightarrow> [] | Inr blockSize \<Rightarrow> written run)"
    using a by (simp add: Patch_def Let_def w1 write_file_def split: sum.splits option.splits)
  show "\<forall>p. p \<noteq> newfile \<longrightarrow>
           files (snd (Patch run basis delta newfile checkFile w)) p = files w p"
    using a by (simp add: Patch_def Let_def w1 write_file_def split: sum.splits option.splits)
next
  assume "os_Open w basis \<noteq> None \<or> os_Open w delta \<noteq> None \<or> isl (os_Create w newfile)"
  then show "fst (Patch run basis delta newfile checkFile w) \<noteq> None"
    and "snd (Patch run basis delta newfile checkFile w) = w"
    by (auto simp: Patch_def split: option.splits sum.splits)
qed

text \<open>The amended statement at the failing run above, and at a call whose basis
  does not exist.\<close>

theorem Patch_never_deletes_target_witness:
  "(\<exists>f. files (snd (Patch run_nosum ''/in/basis'' ''/in/delta'' ''/tmp/image.vmdk'' True disk0))
          ''/tmp/image.vmdk'' = Some f \<and> content f = ''AAAABBBBCCCC'')
   \<and> fst (Patch run_nosum ''/in/missing'' ''/in/delta'' ''/tmp/image.vmdk'' True disk0) \<noteq> None
   \<and> snd (Patch run_nosum ''/in/missing'' ''/in/delta'' ''/tmp/image.vmdk'' True disk0) = disk0"
proof -
  have miss: "os_Open disk0 ''/in/missing'' \<noteq> None"
    by (simp add: os_Open_def disk0_def)
  from Patch_never_deletes_target
         [of disk0 "''/in/basis''" "''/in/delta''" "''/tmp/image.vmdk''" _ run_nosum True]
       os_Open_disk0 os_Create_disk0
  have "\<exists>f. files (snd (Patch run_nosum ''/in/basis'' ''/in/delta'' ''/tmp/image.vmdk'' True disk0))
          ''/tmp/image.vmdk'' = Some f \<and>
          content f = (case header run_nosum of Inl e \<Rightarrow> [] | Inr blockSize \<Rightarrow> written run_nosum)"
    by blast
  moreover have "(case header run_nosum of Inl e \<Rightarrow> [] | Inr blockSize \<Rightarrow> written run_nosum)
      = ''AAAABBBBCCCC''"
    by (simp add: run_nosum_def run_ok_def)
  moreover from Patch_never_deletes_target
         [of disk0 "''/in/missing''" "''/in/delta''" "''/tmp/image.vmdk''" _ run_nosum True] miss
  have "fst (Patch run_nosum ''/in/missing'' ''/in/delta'' ''/tmp/image.vmdk'' True disk0) \<noteq> None
      \<and> snd (Patch run_nosum ''/in/missing'' ''/in/delta'' ''/tmp/image.vmdk'' True disk0) = disk0"
    by blast
  ultimately show ?thesis by simp
qed

text \<open>
  C9 fails for the patched target: \<open>Patch\<close> opens it with \<open>os.Create\<close>, which
  truncates. With a file already at the target path, the call succeeds and the old
  content is gone, where the exclusive open every other output uses reports an error.
\<close>

theorem Patch_overwrites_existing_target:
  "fst (Patch run_ok ''/in/basis'' ''/in/delta'' ''/tmp/image.vmdk'' True disk_taken) = None
   \<and> files disk_taken ''/tmp/image.vmdk'' = Some \<lparr>fperm = 384, content = ''earlier image''\<rparr>
   \<and> files (snd (Patch run_ok ''/in/basis'' ''/in/delta'' ''/tmp/image.vmdk'' True disk_taken))
       ''/tmp/image.vmdk'' = Some \<lparr>fperm = 384, content = ''AAAABBBBCCCC''\<rparr>
   \<and> os_OpenFile_excl disk_taken ''/tmp/image.vmdk'' 420
       = Inl (PathError ''open'' ''/tmp/image.vmdk'')"
  by (simp add: Patch_def os_Open_def os_Create_def os_OpenFile_excl_def disk_taken_def disk0_def
      parent_def write_file_def run_ok_def)

section \<open>Properties of ExtractOVA\<close>

declare extract_loop.simps [simp del]

lemma Base_no_slash:
  assumes "Base n = n" "n \<noteq> ''/''"
  shows "n \<noteq> [] \<and> CHR ''/'' \<notin> set n"
proof -
  from assms(1) have ne: "n \<noteq> []" by (auto simp: Base_def)
  define stripped where "stripped = rev (dropWhile (\<lambda>c. c = CHR ''/'') (rev n))"
  define element where "element = rev (takeWhile (\<lambda>c. c \<noteq> CHR ''/'') (rev stripped))"
  from assms ne have "element = n"
    by (auto simp: Base_def Let_def stripped_def element_def split: if_splits)
  moreover have "CHR ''/'' \<notin> set element"
    unfolding element_def by (auto dest: set_takeWhileD)
  ultimately show ?thesis using ne by simp
qed

lemma parent_append:
  assumes "CHR ''/'' \<notin> set n" "d \<noteq> []"
  shows "parent (d @ ''/'' @ n) = d"
proof -
  have "dropWhile (\<lambda>c. c \<noteq> CHR ''/'') (rev n @ CHR ''/'' # rev d) = CHR ''/'' # rev d"
    using assms(1) by (auto simp: dropWhile_append3)
  then show ?thesis using assms(2) by (simp add: parent_def)
qed

lemma parent_root:
  assumes "CHR ''/'' \<notin> set n"
  shows "parent (''/'' @ n) = ''/''"
proof -
  have "dropWhile (\<lambda>c. c \<noteq> CHR ''/'') (rev n @ [CHR ''/'']) = [CHR ''/'']"
    using assms by (auto simp: dropWhile_append3)
  then show ?thesis by (simp add: parent_def)
qed

lemma split_path_nonempty: "split_path p \<noteq> []"
  by (induction p) (auto split: list.splits)

lemma split_path_plain: "CHR ''/'' \<notin> set n \<Longrightarrow> split_path n = [n]"
  by (induction n) auto

lemma split_path_append: "split_path (a @ CHR ''/'' # b) = split_path a @ split_path b"
proof (induction a)
  case Nil
  show ?case by simp
next
  case (Cons c a)
  obtain x xs where x: "split_path a = x # xs"
    using split_path_nonempty[of a] by (cases "split_path a") auto
  with Cons show ?case by simp
qed

lemma join_path_snoc:
  "join_path (out @ [n]) = (if out = [] then n else join_path out @ ''/'' @ n)"
  by (induction out rule: join_path.induct) auto

lemma clean_step_ok:
  "list_all written_ok out \<Longrightarrow> list_all written_ok (clean_step rooted out elem)"
  by (auto simp: list_all_iff written_ok_def clean_step_def dest: in_set_butlastD)

lemma foldl_clean_step_ok:
  "list_all written_ok out \<Longrightarrow> list_all written_ok (foldl (clean_step rooted) out elems)"
  by (induction elems arbitrary: out) (simp_all add: clean_step_ok)

lemma join_path_empty: "list_all written_ok out \<Longrightarrow> join_path out = [] \<Longrightarrow> out = []"
  by (induction out rule: join_path.induct) (auto simp: written_ok_def)

lemma join_path_dot: "list_all written_ok out \<Longrightarrow> join_path out \<noteq> ''.''"
proof (cases out rule: join_path.cases)
  case 1
  then show ?thesis by simp
next
  case (2 x)
  assume "list_all written_ok out"
  with 2 show ?thesis by (simp add: written_ok_def)
next
  case (3 x y ys)
  assume "list_all written_ok out"
  with 3 have "x \<noteq> []" by (simp add: written_ok_def)
  then have "2 \<le> length (join_path out)" using 3 by (cases x) simp_all
  then show ?thesis by auto
qed

lemma Clean_nonempty: "Clean p \<noteq> []"
  by (simp add: Clean_def Let_def)

lemma Join_clean:
  assumes clean: "Clean d = d"
    and n: "n \<noteq> []" "CHR ''/'' \<notin> set n" "n \<noteq> ''.''" "n \<noteq> ''..''"
  shows "Join d n = (if d = ''/'' then ''/'' @ n else if d = ''.'' then n else d @ ''/'' @ n)"
proof -
  from clean Clean_nonempty[of d] have d: "d \<noteq> []" by auto
  define rooted where "rooted = (hd d = CHR ''/'')"
  define out where "out = foldl (clean_step rooted) [] (split_path d)"
  have ok: "list_all written_ok out"
    unfolding out_def by (rule foldl_clean_step_ok) simp
  have "Clean d = (if rooted then ''/'' @ join_path out
                   else if join_path out = [] then ''.'' else join_path out)"
    unfolding Clean_def Let_def rooted_def out_def by (simp only: d if_False)
  with clean have dform: "d = (if rooted then ''/'' @ join_path out
                   else if join_path out = [] then ''.'' else join_path out)"
    by simp
  have "split_path (d @ ''/'' @ n) = split_path d @ [n]"
    using n(2) by (simp add: split_path_append split_path_plain)
  then have F: "foldl (clean_step rooted) [] (split_path (d @ ''/'' @ n)) = out @ [n]"
    using n by (simp add: out_def clean_step_def)
  have h: "hd (d @ ''/'' @ n) = hd d" using d by simp
  have ne: "d @ ''/'' @ n \<noteq> []" using d by simp
  have jn: "join_path (out @ [n]) \<noteq> []" using n(1) by (simp add: join_path_snoc)
  have "Clean (d @ ''/'' @ n) =
      (if rooted then ''/'' @ join_path (out @ [n])
       else if join_path (out @ [n]) = [] then ''.'' else join_path (out @ [n]))"
    unfolding Clean_def Let_def by (simp only: ne if_False h rooted_def[symmetric] F)
  with jn d have J: "Join d n = (if rooted then ''/'' @ join_path (out @ [n]) else join_path (out @ [n]))"
    by (simp add: Join_def)
  show ?thesis
  proof (cases "out = []")
    case True
    with dform J show ?thesis by (auto simp: join_path_snoc)
  next
    case False
    with ok have ne: "join_path out \<noteq> []" using join_path_empty by blast
    from ok have nd: "join_path out \<noteq> ''.''" by (rule join_path_dot)
    have nr: "\<not> rooted \<Longrightarrow> join_path out \<noteq> ''/''"
    proof
      assume "\<not> rooted" "join_path out = ''/''"
      with dform ne have "d = ''/''" by simp
      with \<open>\<not> rooted\<close> show False by (simp add: rooted_def)
    qed
    show ?thesis
    proof (cases rooted)
      case True
      with dform ne have "d \<noteq> ''/''" "d \<noteq> ''.''" by auto
      with True dform J False show ?thesis by (simp add: join_path_snoc)
    next
      case nroot: False
      with dform ne have dj: "d = join_path out" by simp
      with nd nr[OF nroot] have "d \<noteq> ''/''" "d \<noteq> ''.''" by auto
      with nroot dj J False show ?thesis by (simp add: join_path_snoc)
    qed
  qed
qed

lemma parent_plain: "CHR ''/'' \<notin> set n \<Longrightarrow> parent n = ''.''"
proof -
  assume "CHR ''/'' \<notin> set n"
  then have "dropWhile (\<lambda>c. c \<noteq> CHR ''/'') (rev n) = []" by auto
  then show ?thesis by (simp add: parent_def)
qed

lemma Join_plain:
  assumes "Clean d = d" "Base n = n" "n \<noteq> ''/''" "n \<noteq> ''.''" "n \<noteq> ''..''"
  shows "Join d n = (if d = ''/'' then ''/'' @ n else if d = ''.'' then n else d @ ''/'' @ n)"
  using Join_clean[OF assms(1) _ _ assms(4,5)] Base_no_slash[OF assms(2,3)] by simp

lemma parent_Join:
  assumes "Clean d = d" "Base n = n" "n \<noteq> ''/''" "n \<noteq> ''.''" "n \<noteq> ''..''"
  shows "parent (Join d n) = d"
proof -
  from assms(1) Clean_nonempty[of d] have "d \<noteq> []" by auto
  with Base_no_slash[OF assms(2,3)] parent_append[of n d] parent_root[of n] parent_plain[of n]
  show ?thesis by (simp add: Join_plain[OF assms])
qed

lemma Join_inject:
  assumes "Clean d = d"
      and "Base n = n" "n \<noteq> ''/''" "n \<noteq> ''.''" "n \<noteq> ''..''"
      and "Base m = m" "m \<noteq> ''/''" "m \<noteq> ''.''" "m \<noteq> ''..''"
  shows "Join d n = Join d m \<longleftrightarrow> n = m"
  using assms by (simp add: Join_plain)

lemma extract_loop_step:
  assumes "0 \<le> limit" "flat_regular (Entry h body r)" "dirname \<in> dirs w" "Clean dirname = dirname"
    and "absent dirname w (Entry h body r)"
  shows "extract_loop dirname limit (Entry h body r # rest) w =
         extract_loop dirname (limit - 1) rest
           (w\<lparr>files := (files w)(Join dirname (Name h) \<mapsto>
                 \<lparr>fperm = perm (Mode h), content = body\<rparr>)\<rparr>)"
proof -
  from assms(2,4) have par: "parent (Join dirname (Name h)) = dirname"
    by (simp add: parent_Join)
  have op: "os_OpenFile_excl w (Join dirname (Name h)) (perm (Mode h)) =
        Inr (w\<lparr>files := (files w)(Join dirname (Name h) \<mapsto> \<lparr>fperm = perm (Mode h), content = []\<rparr>)\<rparr>)"
    using assms(3,5) par by (simp add: os_OpenFile_excl_def absent_def)
  show ?thesis
    using assms(1,2) op
    by (subst extract_loop.simps) (simp add: Let_def write_file_def)
qed

lemma absent_after_write:
  assumes "flat_regular e" "flat_regular (Entry h body r)" "item_name e \<noteq> Name h"
    and "absent dirname w e" "Clean dirname = dirname"
  shows "absent dirname
           (w\<lparr>files := (files w)(Join dirname (Name h) \<mapsto> f)\<rparr>) e"
proof (cases e)
  case (Entry h' body' r')
  with assms(1,2,3,5) have "Join dirname (Name h') \<noteq> Join dirname (Name h)"
    by (simp add: Join_inject)
  with assms(4) Entry show ?thesis by (simp add: absent_def)
next
  case (Corrupt x)
  with assms(1) show ?thesis by simp
qed

lemma extract_loop_prefix:
  assumes "valid_archive es" "list_all (absent dirname w) es"
    and "dirname \<in> dirs w" "Clean dirname = dirname" "int (length es) \<le> limit + 1"
  shows "extract_loop dirname limit (es @ rest) w =
         extract_loop dirname (limit - int (length es)) rest (write_entries dirname es w)"
  using assms
proof (induction es arbitrary: limit w)
  case Nil
  then show ?case by simp
next
  case (Cons e es)
  from Cons.prems(1) obtain h body r where e: "e = Entry h body r"
    by (cases e) (auto simp: valid_archive_def)
  let ?w = "w\<lparr>files := (files w)(Join dirname (Name h) \<mapsto> \<lparr>fperm = perm (Mode h), content = body\<rparr>)\<rparr>"
  from Cons.prems(1) e have fr: "flat_regular (Entry h body r)" and va: "valid_archive es"
    and new: "Name h \<notin> item_name ` set es" and all_fr: "list_all flat_regular es"
    by (auto simp: valid_archive_def)
  from Cons.prems(2) e have ab: "absent dirname w (Entry h body r)"
    and abs: "list_all (absent dirname w) es" by auto
  have abs': "list_all (absent dirname ?w) es"
    unfolding list_all_iff
  proof
    fix x assume x: "x \<in> set es"
    with all_fr have fx: "flat_regular x" by (simp add: list_all_iff)
    from x new have nx: "item_name x \<noteq> Name h" by (metis imageI)
    from x abs have ax: "absent dirname w x" by (simp add: list_all_iff)
    show "absent dirname ?w x" by (rule absent_after_write[OF fx fr nx ax Cons.prems(4)])
  qed
  from Cons.prems(5) have lim: "0 \<le> limit" "int (length es) \<le> (limit - 1) + 1" by auto
  have "extract_loop dirname limit ((e # es) @ rest) w = extract_loop dirname (limit - 1) (es @ rest) ?w"
    using extract_loop_step[OF lim(1) fr Cons.prems(3,4) ab] e by simp
  also have "\<dots> = extract_loop dirname (limit - 1 - int (length es)) rest (write_entries dirname es ?w)"
    using Cons.IH[OF va abs' _ Cons.prems(4) lim(2)] Cons.prems(3) by simp
  finally show ?case using e by (simp add: algebra_simps)
qed

lemma extract_loop_exhausted: "limit < 0 \<Longrightarrow> extract_loop dirname limit tr w = (Inr limit, w)"
  by (subst extract_loop.simps) simp

lemma extract_loop_eof: "extract_loop dirname limit [] w = (Inr limit, w)"
  by (subst extract_loop.simps) simp

text \<open>
  What \<open>ExtractOVA\<close> does on a valid archive whose entries are absent from an
  existing destination directory: it creates and fills the first 101 entries, and it
  returns \<open>nil\<close> exactly when the archive has at most 99 of them. With 100 entries the
  loop meets the end of the archive with \<open>limit = 0\<close>, with more it runs out at
  \<open>limit = -1\<close>; the test \<open>limit <= 0\<close> after the loop reports both.
\<close>

lemma ExtractOVA_valid:
  assumes "os_Open w ova = None" "valid_archive es" "list_all (absent dirname w) es"
    and "dirname \<in> dirs w" "Clean dirname = dirname"
  shows "ExtractOVA es ova dirname w =
           (if length es \<le> 99 then None else Some TarTooManyFiles,
            write_entries dirname (take 101 es) w)"
proof -
  let ?pre = "take 101 es"
  have va: "valid_archive ?pre"
    using assms(2) by (auto simp: valid_archive_def list_all_iff distinct_map dest: in_set_takeD intro: inj_on_subset[OF _ set_take_subset])
  have ab: "list_all (absent dirname w) ?pre"
    using assms(3) by (auto simp: list_all_iff dest: in_set_takeD)
  have len: "int (length ?pre) \<le> 100 + 1" by simp
  have "extract_loop dirname 100 (?pre @ drop 101 es) w =
        extract_loop dirname (100 - int (length ?pre)) (drop 101 es) (write_entries dirname ?pre w)"
    by (rule extract_loop_prefix[OF va ab assms(4,5) len])
  then have run: "extract_loop dirname 100 es w =
        extract_loop dirname (100 - int (length ?pre)) (drop 101 es) (write_entries dirname ?pre w)"
    by simp
  show ?thesis
  proof (cases "length es \<le> 100")
    case True
    then have "extract_loop dirname 100 es w = (Inr (100 - int (length es)), write_entries dirname ?pre w)"
      using run by (simp add: extract_loop_eof)
    then show ?thesis using assms(1) True by (auto simp: ExtractOVA_def)
  next
    case False
    then have "length ?pre = 101" by simp
    then have "extract_loop dirname 100 es w = (Inr (-1), write_entries dirname ?pre w)"
      using run by (simp add: extract_loop_exhausted)
    then show ?thesis using assms(1) False by (simp add: ExtractOVA_def)
  qed
qed


lemma write_entries_other:
  assumes "p \<notin> (\<lambda>e. Join dirname (item_name e)) ` set es"
  shows "files (write_entries dirname es w) p = files w p"
  using assms
proof (induction es arbitrary: w)
  case Nil
  then show ?case by simp
next
  case (Cons e es)
  then show ?case by (cases e) auto
qed

lemma dirs_write_entries: "dirs (write_entries dirname es w) = dirs w"
proof (induction es arbitrary: w)
  case Nil
  then show ?case by simp
next
  case (Cons e es)
  then show ?case by (cases e) auto
qed

lemma write_entries_lookup:
  assumes "valid_archive es" "Entry h body r \<in> set es" "Clean dirname = dirname"
  shows "files (write_entries dirname es w) (Join dirname (Name h)) =
         Some \<lparr>fperm = perm (Mode h), content = body\<rparr>"
  using assms
proof (induction es arbitrary: w)
  case Nil
  then show ?case by simp
next
  case (Cons e es)
  from Cons.prems(1) have va: "valid_archive es" and fe: "flat_regular e"
    and all_fr: "list_all flat_regular es" and new: "item_name e \<notin> item_name ` set es"
    by (auto simp: valid_archive_def)
  show ?case
  proof (cases "Entry h body r \<in> set es")
    case True
    from Cons.IH[OF va True Cons.prems(3)] show ?thesis by (cases e) auto
  next
    case False
    with Cons.prems(2) have e: "e = Entry h body r" by simp
    have "Join dirname (Name h) \<notin> (\<lambda>x. Join dirname (item_name x)) ` set es"
    proof
      assume "Join dirname (Name h) \<in> (\<lambda>x. Join dirname (item_name x)) ` set es"
      then obtain x where x: "x \<in> set es" "Join dirname (Name h) = Join dirname (item_name x)"
        by auto
      from x(1) all_fr have fx: "flat_regular x" by (simp add: list_all_iff)
      then obtain h' b' r' where x': "x = Entry h' b' r'" by (cases x) auto
      from fe e fx x' x(2) Cons.prems(3) have "Name h = Name h'" by (simp add: Join_inject)
      with x(1) x' new e show False by (metis imageI item_name.simps(1))
    qed
    then show ?thesis using e by (simp add: write_entries_other)
  qed
qed

lemma Base_plain:
  assumes "n \<noteq> []" "CHR ''/'' \<notin> set n"
  shows "Base n = n"
proof -
  from assms have "rev n \<noteq> []" "CHR ''/'' \<notin> set (rev n)" by auto
  then have dw: "dropWhile (\<lambda>c. c = CHR ''/'') (rev n) = rev n"
    by (cases "rev n") auto
  have tw: "takeWhile (\<lambda>c. c \<noteq> CHR ''/'') (rev n) = rev n"
    using assms(2) by (auto intro: takeWhile_eq_all_conv[THEN iffD2])
  show ?thesis using assms(1) by (simp add: Base_def dw tw)
qed

lemma flat_regular_plain_entry: "flat_regular (plain_entry i)"
  by (simp add: plain_entry_def entry_name_def Base_plain IsRegular_def)

lemma inj_entry_name: "inj entry_name"
proof (rule injI)
  fix i j assume "entry_name i = entry_name j"
  then have "length (entry_name i) = length (entry_name j)" by simp
  then show "i = j" by (simp add: entry_name_def)
qed

lemma valid_plain_archive: "valid_archive (plain_archive n)"
proof -
  have names: "map item_name (plain_archive n) = map entry_name [0..<n]"
    by (simp add: plain_archive_def plain_entry_def comp_def)
  have "distinct (map entry_name [0..<n])"
    by (simp add: distinct_map inj_on_subset[OF inj_entry_name])
  with names have "distinct (map item_name (plain_archive n))" by simp
  moreover have "list_all flat_regular (plain_archive n)"
    by (simp add: plain_archive_def list_all_iff flat_regular_plain_entry)
  ultimately show ?thesis by (simp add: valid_archive_def)
qed

lemma Clean_out: "Clean ''/out'' = ''/out''"
  by (simp add: Clean_def clean_step_def)

lemma Join_out_plain: "Join ''/out'' (entry_name i) = ''/out/'' @ entry_name i"
  using flat_regular_plain_entry[of i]
  by (simp add: plain_entry_def Join_plain[OF Clean_out])

lemma absent_plain_archive: "list_all (absent ''/out'' disk_ova) (plain_archive n)"
  by (simp add: list_all_iff plain_archive_def absent_def plain_entry_def Join_out_plain
      disk_ova_def)

lemma os_Open_disk_ova: "os_Open disk_ova ''/in/image.ova'' = None"
  by (simp add: os_Open_def disk_ova_def)

lemma ExtractOVA_plain_archive:
  "ExtractOVA (plain_archive n) ''/in/image.ova'' ''/out'' disk_ova =
     (if n \<le> 99 then None else Some TarTooManyFiles,
      write_entries ''/out'' (take 101 (plain_archive n)) disk_ova)"
proof -
  have "ExtractOVA (plain_archive n) ''/in/image.ova'' ''/out'' disk_ova =
     (if length (plain_archive n) \<le> 99 then None else Some TarTooManyFiles,
      write_entries ''/out'' (take 101 (plain_archive n)) disk_ova)"
    by (rule ExtractOVA_valid[OF os_Open_disk_ova valid_plain_archive absent_plain_archive])
       (simp_all add: disk_ova_def Clean_out)
  then show ?thesis by (simp add: plain_archive_def)
qed

lemma plain_archive_written:
  assumes "i < n"
  shows "files (write_entries ''/out'' (plain_archive n) disk_ova) (''/out/'' @ entry_name i) =
         Some \<lparr>fperm = 420, content = ''data''\<rparr>"
proof -
  have "Entry \<lparr>Name = entry_name i, Mode = \<lparr>ftype = Regular, perm = 420\<rparr>\<rparr> ''data'' None
          \<in> set (plain_archive n)"
    using assms by (auto simp: plain_archive_def plain_entry_def)
  from write_entries_lookup[OF valid_plain_archive this Clean_out, of disk_ova]
  show ?thesis by (simp add: Join_out_plain)
qed

text \<open>
  C2 fails on the code in its second half. On the archive of 101 regular files
  \<open>ExtractOVA\<close> does return the too-many-files error, but only after the loop has run
  for \<open>limit = 100, ..., 0\<close>: all 101 files are in the destination afterwards, the
  101st (\<open>entry_name 100\<close>) among them, where the claim has at most 100 written and
  the 101st never.
\<close>

theorem ExtractOVA_101_entries_writes_101:
  "fst (ExtractOVA (plain_archive 101) ''/in/image.ova'' ''/out'' disk_ova) = Some TarTooManyFiles
   \<and> list_all (\<lambda>i. files (snd (ExtractOVA (plain_archive 101) ''/in/image.ova'' ''/out'' disk_ova))
                       (''/out/'' @ entry_name i) = Some \<lparr>fperm = 420, content = ''data''\<rparr>)
        [0..<101]
   \<and> files (snd (ExtractOVA (plain_archive 101) ''/in/image.ova'' ''/out'' disk_ova))
        (''/out/'' @ entry_name 100) = Some \<lparr>fperm = 420, content = ''data''\<rparr>"
proof -
  have "take 101 (plain_archive 101) = plain_archive 101" by (simp add: plain_archive_def)
  then have run: "ExtractOVA (plain_archive 101) ''/in/image.ova'' ''/out'' disk_ova =
      (Some TarTooManyFiles, write_entries ''/out'' (plain_archive 101) disk_ova)"
    by (simp add: ExtractOVA_plain_archive)
  show ?thesis
    unfolding run fst_conv snd_conv list_all_iff
    using plain_archive_written[of _ 101] by simp
qed

text \<open>
  C3 fails on the code at the cap itself. On the valid archive of exactly 100
  regular files \<open>ExtractOVA\<close> writes all 100 files with their content and then
  returns the too-many-files error, where the claim has it succeed; on the archive of
  99 it returns \<open>nil\<close>.
\<close>

theorem ExtractOVA_100_entries_fails:
  "fst (ExtractOVA (plain_archive 100) ''/in/image.ova'' ''/out'' disk_ova) = Some TarTooManyFiles
   \<and> list_all (\<lambda>i. files (snd (ExtractOVA (plain_archive 100) ''/in/image.ova'' ''/out'' disk_ova))
                       (''/out/'' @ entry_name i) = Some \<lparr>fperm = 420, content = ''data''\<rparr>)
        [0..<100]
   \<and> fst (ExtractOVA (plain_archive 99) ''/in/image.ova'' ''/out'' disk_ova) = None"
proof -
  have "take 101 (plain_archive 100) = plain_archive 100" by (simp add: plain_archive_def)
  then have run: "ExtractOVA (plain_archive 100) ''/in/image.ova'' ''/out'' disk_ova =
      (Some TarTooManyFiles, write_entries ''/out'' (plain_archive 100) disk_ova)"
    by (simp add: ExtractOVA_plain_archive)
  have ok: "fst (ExtractOVA (plain_archive 99) ''/in/image.ova'' ''/out'' disk_ova) = None"
    by (simp add: ExtractOVA_plain_archive)
  show ?thesis
    unfolding run fst_conv snd_conv list_all_iff
    using plain_archive_written[of _ 100] ok by simp
qed


lemma extract_loop_subdirectory:
  "0 \<le> limit \<Longrightarrow> Base (Name h) \<noteq> Name h \<Longrightarrow>
   extract_loop dirname limit (Entry h body r # rest) w = (Inl (TarSubdirectory (Name h)), w)"
  by (subst extract_loop.simps) simp

lemma extract_loop_mode:
  "0 \<le> limit \<Longrightarrow> Base (Name h) = Name h \<Longrightarrow> \<not> IsRegular (Mode h) \<Longrightarrow>
   extract_loop dirname limit (Entry h body r # rest) w =
     (Inl (TarUnexpectedMode (Name h) (Mode h)), w)"
  by (subst extract_loop.simps) simp

text \<open>
  C7, as stated, fails in its second half: an entry whose mode is not regular does
  not always get the file-mode error, because the name is tested first. A directory
  entry under the name tar gives it, \<open>dir/\<close>, is not regular and is rejected with the
  subdirectory error.
\<close>

theorem ExtractOVA_directory_gets_subdirectory_error:
  "\<not> IsRegular (Mode dir_header)
   \<and> ExtractOVA [Entry dir_header [] None] ''/in/image.ova'' ''/out'' disk_ova
       = (Some (TarSubdirectory ''dir/''), disk_ova)
   \<and> fst (ExtractOVA [Entry dir_header [] None] ''/in/image.ova'' ''/out'' disk_ova)
       \<noteq> Some (TarUnexpectedMode ''dir/'' (Mode dir_header))"
proof -
  have "Base ''dir/'' \<noteq> ''dir/''" by (simp add: Base_def)
  then have "extract_loop ''/out'' 100 [Entry dir_header [] None] disk_ova
      = (Inl (TarSubdirectory ''dir/''), disk_ova)"
    using extract_loop_subdirectory[of 100 dir_header "''/out''" "[]" None "[]" disk_ova]
    by (simp add: dir_header_def)
  then show ?thesis
    by (simp add: ExtractOVA_def os_Open_disk_ova dir_header_def IsRegular_def)
qed

text \<open>
  C7, amended: the two tests are applied in order. Whenever the loop comes to read
  an entry (in any state, with \<open>limit\<close> not negative), it returns the subdirectory
  error if the entry's name is not its own base name, whatever the entry's mode, and
  the file-mode error if the name passes and the mode is not regular. It returns the
  file system as it found it, and the items after the entry do not enter the result:
  they are never read. For the whole function: when the archive file can be opened,
  the destination is an existing directory given by its clean path, and the entries
  before the rejected one form a valid archive of at most 100 items that are absent
  from the destination, \<open>ExtractOVA\<close> returns that error and the file system holding
  those earlier entries only. The third part says what \<open>write_entries\<close> touches: only
  the paths of the accepted entries.
\<close>

theorem ExtractOVA_rejects_entry:
  assumes "os_Open w ova = None" and "valid_archive pre" and "list_all (absent dirname w) pre"
    and "dirname \<in> dirs w" and "Clean dirname = dirname" and "length pre \<le> 100"
  shows "(Base (Name h) \<noteq> Name h \<longrightarrow>
            ExtractOVA (pre @ Entry h body r # rest) ova dirname w =
              (Some (TarSubdirectory (Name h)), write_entries dirname pre w))
       \<and> (Base (Name h) = Name h \<and> \<not> IsRegular (Mode h) \<longrightarrow>
            ExtractOVA (pre @ Entry h body r # rest) ova dirname w =
              (Some (TarUnexpectedMode (Name h) (Mode h)), write_entries dirname pre w))
       \<and> (\<forall>p. p \<notin> (\<lambda>e. Join dirname (item_name e)) ` set pre \<longrightarrow>
            files (write_entries dirname pre w) p = files w p)
       \<and> (\<forall>limit v. 0 \<le> limit \<and> Base (Name h) \<noteq> Name h \<longrightarrow>
            extract_loop dirname limit (Entry h body r # rest) v
              = (Inl (TarSubdirectory (Name h)), v))
       \<and> (\<forall>limit v. 0 \<le> limit \<and> Base (Name h) = Name h \<and> \<not> IsRegular (Mode h) \<longrightarrow>
            extract_loop dirname limit (Entry h body r # rest) v
              = (Inl (TarUnexpectedMode (Name h) (Mode h)), v))"
proof -
  from assms(6) have len: "int (length pre) \<le> 100 + 1" and lim: "0 \<le> 100 - int (length pre)"
    by simp_all
  have run: "extract_loop dirname 100 (pre @ Entry h body r # rest) w =
        extract_loop dirname (100 - int (length pre)) (Entry h body r # rest)
          (write_entries dirname pre w)"
    by (rule extract_loop_prefix[OF assms(2,3,4,5) len])
  have 1: "Base (Name h) \<noteq> Name h \<longrightarrow>
            ExtractOVA (pre @ Entry h body r # rest) ova dirname w =
              (Some (TarSubdirectory (Name h)), write_entries dirname pre w)"
    using assms(1) run extract_loop_subdirectory[OF lim] by (simp add: ExtractOVA_def)
  have 2: "Base (Name h) = Name h \<and> \<not> IsRegular (Mode h) \<longrightarrow>
            ExtractOVA (pre @ Entry h body r # rest) ova dirname w =
              (Some (TarUnexpectedMode (Name h) (Mode h)), write_entries dirname pre w)"
    using assms(1) run extract_loop_mode[OF lim] by (simp add: ExtractOVA_def)
  have 3: "\<forall>p. p \<notin> (\<lambda>e. Join dirname (item_name e)) ` set pre \<longrightarrow>
            files (write_entries dirname pre w) p = files w p"
    by (simp add: write_entries_other)
  have 4: "\<forall>limit v. 0 \<le> limit \<and> Base (Name h) \<noteq> Name h \<longrightarrow>
            extract_loop dirname limit (Entry h body r # rest) v
              = (Inl (TarSubdirectory (Name h)), v)"
    by (simp add: extract_loop_subdirectory)
  have 5: "\<forall>limit v. 0 \<le> limit \<and> Base (Name h) = Name h \<and> \<not> IsRegular (Mode h) \<longrightarrow>
            extract_loop dirname limit (Entry h body r # rest) v
              = (Inl (TarUnexpectedMode (Name h) (Mode h)), v)"
    by (simp add: extract_loop_mode)
  from 1 2 3 4 5 show ?thesis by blast
qed

text \<open>The amended statement after two accepted entries: a regular file below a
  subdirectory and a directory named \<open>dir/\<close> get the subdirectory error, a symbolic
  link with a flat name gets the file-mode error, and nothing exists at the paths of
  the rejected entries afterwards.\<close>

theorem ExtractOVA_rejects_entry_witness:
  "ExtractOVA (plain_archive 2 @ subdir_entry # plain_archive 1) ''/in/image.ova'' ''/out'' disk_ova
     = (Some (TarSubdirectory ''sub/file''), write_entries ''/out'' (plain_archive 2) disk_ova)
   \<and> ExtractOVA (plain_archive 2 @ symlink_entry # plain_archive 1) ''/in/image.ova'' ''/out'' disk_ova
     = (Some (TarUnexpectedMode ''link'' \<lparr>ftype = Symlink, perm = 511\<rparr>),
        write_entries ''/out'' (plain_archive 2) disk_ova)
   \<and> ExtractOVA (plain_archive 2 @ Entry dir_header [] None # plain_archive 1)
        ''/in/image.ova'' ''/out'' disk_ova
     = (Some (TarSubdirectory ''dir/''), write_entries ''/out'' (plain_archive 2) disk_ova)
   \<and> files (write_entries ''/out'' (plain_archive 2) disk_ova) ''/out/sub/file'' = None
   \<and> files (write_entries ''/out'' (plain_archive 2) disk_ova) ''/out/link'' = None
   \<and> files (write_entries ''/out'' (plain_archive 2) disk_ova) ''/out/dir'' = None"
proof -
  have d: "''/out'' \<in> dirs disk_ova" "Clean ''/out'' = ''/out''" "length (plain_archive 2) \<le> 100"
    by (simp_all add: disk_ova_def plain_archive_def Clean_out)
  note t = ExtractOVA_rejects_entry[OF os_Open_disk_ova valid_plain_archive[of 2]
      absent_plain_archive[of 2] d]
  have names: "(\<lambda>e. Join ''/out'' (item_name e)) ` set (plain_archive 2) = {''/out/a'', ''/out/aa''}"
    by (auto simp: plain_archive_def plain_entry_def numeral_2_eq_2 Join_out_plain)
       (simp_all add: entry_name_def)
  have s: "Base ''sub/file'' \<noteq> ''sub/file''" "Base ''link'' = ''link''"
    by (simp_all add: Base_def)
  from t[of "\<lparr>Name = ''sub/file'', Mode = \<lparr>ftype = Regular, perm = 420\<rparr>\<rparr>" "''data''" None
           "plain_archive 1"] s(1)
  have 1: "ExtractOVA (plain_archive 2 @ subdir_entry # plain_archive 1) ''/in/image.ova'' ''/out'' disk_ova
     = (Some (TarSubdirectory ''sub/file''), write_entries ''/out'' (plain_archive 2) disk_ova)"
    and o: "\<forall>p. p \<notin> (\<lambda>e. Join ''/out'' (item_name e)) ` set (plain_archive 2) \<longrightarrow>
            files (write_entries ''/out'' (plain_archive 2) disk_ova) p = files disk_ova p"
    by (simp_all add: subdir_entry_def)
  from t[of "\<lparr>Name = ''link'', Mode = \<lparr>ftype = Symlink, perm = 511\<rparr>\<rparr>" "[]" None
           "plain_archive 1"] s(2)
  have 2: "ExtractOVA (plain_archive 2 @ symlink_entry # plain_archive 1) ''/in/image.ova'' ''/out'' disk_ova
     = (Some (TarUnexpectedMode ''link'' \<lparr>ftype = Symlink, perm = 511\<rparr>),
        write_entries ''/out'' (plain_archive 2) disk_ova)"
    by (simp add: symlink_entry_def IsRegular_def)
  from o names have 3: "files (write_entries ''/out'' (plain_archive 2) disk_ova) ''/out/sub/file'' = None"
    "files (write_entries ''/out'' (plain_archive 2) disk_ova) ''/out/link'' = None"
    "files (write_entries ''/out'' (plain_archive 2) disk_ova) ''/out/dir'' = None"
    by (simp_all add: disk_ova_def)
  have "Base (Name dir_header) \<noteq> Name dir_header"
    by (simp add: dir_header_def Base_def)
  with t[of dir_header "[]" None "plain_archive 1"]
  have 4: "ExtractOVA (plain_archive 2 @ Entry dir_header [] None # plain_archive 1)
        ''/in/image.ova'' ''/out'' disk_ova
     = (Some (TarSubdirectory ''dir/''), write_entries ''/out'' (plain_archive 2) disk_ova)"
    by (simp add: dir_header_def)
  from 1 2 3 4 show ?thesis by blast
qed


section \<open>Properties of the cancellation wrappers and of Config\<close>

lemma write_calls_fired:
  "fired closed (cw_stop cw) \<Longrightarrow>
   write_calls Write closed cw ps = (replicate (length ps) (0, Some ErrInterupt), cw)"
  by (induction ps) (simp_all add: CancelWriter_Write_def)

lemma read_calls_fired:
  "fired closed (cr_stop cr) \<Longrightarrow>
   read_calls Read closed cr ps = (map (\<lambda>p. (0, Some ErrInterupt, p)) ps, cr)"
  by (induction ps) (simp_all add: CancelReader_Read_def)

lemma write_calls_open:
  "\<not> fired closed (cw_stop cw) \<Longrightarrow>
   write_calls Write closed cw ps =
     (fst (plain_calls Write (cw_w cw) ps), cw\<lparr>cw_w := snd (plain_calls Write (cw_w cw) ps)\<rparr>)"
proof (induction ps arbitrary: cw)
  case Nil
  then show ?case by simp
next
  case (Cons p ps)
  obtain res s' where step: "Write (cw_w cw) p = (res, s')" by (cases "Write (cw_w cw) p")
  from Cons.prems have "\<not> fired closed (cw_stop (cw\<lparr>cw_w := s'\<rparr>))" by simp
  from Cons.IH[OF this] Cons.prems step show ?case
    by (simp add: CancelWriter_Write_def split: prod.splits)
qed

lemma read_calls_open:
  "\<not> fired closed (cr_stop cr) \<Longrightarrow>
   read_calls Read closed cr ps =
     (fst (plain_calls Read (cr_r cr) ps), cr\<lparr>cr_r := snd (plain_calls Read (cr_r cr) ps)\<rparr>)"
proof (induction ps arbitrary: cr)
  case Nil
  then show ?case by simp
next
  case (Cons p ps)
  obtain res s' where step: "Read (cr_r cr) p = (res, s')" by (cases "Read (cr_r cr) p")
  from Cons.prems have "\<not> fired closed (cr_stop (cr\<lparr>cr_r := s'\<rparr>))" by simp
  from Cons.IH[OF this] Cons.prems step show ?case
    by (simp add: CancelReader_Read_def split: prod.splits)
qed

text \<open>
  C6. For a writer and a reader wrapped by a \<open>Config\<close>: once the stop signal has
  fired, a \<open>Write\<close> returns \<open>(0, ErrInterupt)\<close> and a \<open>Read\<close> returns \<open>(0, ErrInterupt)\<close>
  with the buffer untouched, the wrapped stream is left exactly as it was (it is not
  called), and the same holds for every call of any sequence of further calls. While
  the signal has not fired, each call returns what the wrapped stream's method
  returns and leaves the wrapped stream in the state that method leaves it in, and a
  sequence of calls is the same sequence of calls on the wrapped stream. The signal
  fires by \<open>Stop\<close>: after \<open>Stop\<close> on the \<open>Config\<close> every call on a wrapper made from
  it, before or after, is interrupted.
\<close>

theorem Cancel_wrappers_check_signal:
  "(fired closed (stop c) \<longrightarrow>
      CancelWriter_Write Write closed (Writer c s) p = ((0, Some ErrInterupt), Writer c s) \<and>
      CancelReader_Read Read closed (Reader c t) buf = ((0, Some ErrInterupt, buf), Reader c t) \<and>
      write_calls Write closed (Writer c s) ps
        = (replicate (length ps) (0, Some ErrInterupt), Writer c s) \<and>
      read_calls Read closed (Reader c t) bufs
        = (map (\<lambda>b. (0, Some ErrInterupt, b)) bufs, Reader c t))
   \<and> (\<not> fired closed (stop c) \<longrightarrow>
      CancelWriter_Write Write closed (Writer c s) p
        = (fst (Write s p), Writer c (snd (Write s p))) \<and>
      CancelReader_Read Read closed (Reader c t) buf
        = (fst (Read t buf), Reader c (snd (Read t buf))) \<and>
      write_calls Write closed (Writer c s) ps
        = (fst (plain_calls Write s ps), Writer c (snd (plain_calls Write s ps))) \<and>
      read_calls Read closed (Reader c t) bufs
        = (fst (plain_calls Read t bufs), Reader c (snd (plain_calls Read t bufs))))
   \<and> (stop c \<noteq> None \<longrightarrow>
      write_calls Write (fst (snd (Stop c closed w))) (Writer c s) ps
        = (replicate (length ps) (0, Some ErrInterupt), Writer c s) \<and>
      read_calls Read (fst (snd (Stop c closed w))) (Reader c t) bufs
        = (map (\<lambda>b. (0, Some ErrInterupt, b)) bufs, Reader c t))"
proof (intro conjI impI)
  assume "stop c \<noteq> None"
  then have f: "fired (fst (snd (Stop c closed w))) (stop c)"
    by (auto simp: Stop_def fired_def)
  then have fw: "fired (fst (snd (Stop c closed w))) (cw_stop (Writer c s))"
    and fr: "fired (fst (snd (Stop c closed w))) (cr_stop (Reader c t))"
    by (simp_all add: Writer_def Reader_def)
  show "write_calls Write (fst (snd (Stop c closed w))) (Writer c s) ps
        = (replicate (length ps) (0, Some ErrInterupt), Writer c s)"
    by (rule write_calls_fired[OF fw])
  show "read_calls Read (fst (snd (Stop c closed w))) (Reader c t) bufs
        = (map (\<lambda>b. (0, Some ErrInterupt, b)) bufs, Reader c t)"
    by (rule read_calls_fired[OF fr])
next
  assume f: "fired closed (stop c)"
  then have fw: "fired closed (cw_stop (Writer c s))" and fr: "fired closed (cr_stop (Reader c t))"
    by (simp_all add: Writer_def Reader_def)
  show "CancelWriter_Write Write closed (Writer c s) p = ((0, Some ErrInterupt), Writer c s)"
    using fw by (simp add: CancelWriter_Write_def)
  show "CancelReader_Read Read closed (Reader c t) buf = ((0, Some ErrInterupt, buf), Reader c t)"
    using fr by (simp add: CancelReader_Read_def)
  show "write_calls Write closed (Writer c s) ps
        = (replicate (length ps) (0, Some ErrInterupt), Writer c s)"
    by (rule write_calls_fired[OF fw])
  show "read_calls Read closed (Reader c t) bufs
        = (map (\<lambda>b. (0, Some ErrInterupt, b)) bufs, Reader c t)"
    by (rule read_calls_fired[OF fr])
next
  assume n: "\<not> fired closed (stop c)"
  then have nw: "\<not> fired closed (cw_stop (Writer c s))"
    and nr: "\<not> fired closed (cr_stop (Reader c t))"
    by (simp_all add: Writer_def Reader_def)
  show "CancelWriter_Write Write closed (Writer c s) p
        = (fst (Write s p), Writer c (snd (Write s p)))"
    using nw by (simp add: CancelWriter_Write_def Writer_def split: prod.splits)
  show "CancelReader_Read Read closed (Reader c t) buf
        = (fst (Read t buf), Reader c (snd (Read t buf)))"
    using nr by (simp add: CancelReader_Read_def Reader_def split: prod.splits)
  show "write_calls Write closed (Writer c s) ps
        = (fst (plain_calls Write s ps), Writer c (snd (plain_calls Write s ps)))"
    using write_calls_open[OF nw] by (simp add: Writer_def)
  show "read_calls Read closed (Reader c t) bufs
        = (fst (plain_calls Read t bufs), Reader c (snd (plain_calls Read t bufs)))"
    using read_calls_open[OF nr] by (simp add: Reader_def)
qed

text \<open>The theorem on a buffer and a reader wrapped by \<open>config0\<close>, whose channel is
  object 0: with the channel closed two writes and a read are interrupted and the
  streams keep their content; with it open the bytes go through.\<close>

theorem Cancel_wrappers_check_signal_witness:
  "write_calls buffer_Write {0} (Writer config0 ''ab'') [''cd'', ''ef'']
     = ([(0, Some ErrInterupt), (0, Some ErrInterupt)], Writer config0 ''ab'')
   \<and> CancelReader_Read buffer_Read {0} (Reader config0 ''xyz'') ''..''
     = ((0, Some ErrInterupt, ''..''), Reader config0 ''xyz'')
   \<and> write_calls buffer_Write {} (Writer config0 ''ab'') [''cd'', ''ef'']
     = ([(2, None), (2, None)], Writer config0 ''abcdef'')
   \<and> CancelReader_Read buffer_Read {} (Reader config0 ''xyz'') ''..''
     = ((2, None, ''xy''), Reader config0 ''z'')"
proof -
  have f: "fired {0} (stop config0)" and n: "\<not> fired {} (stop config0)"
    by (simp_all add: fired_def config0_def)
  note a = Cancel_wrappers_check_signal[where closed = "{0}" and c = config0
      and Write = buffer_Write and s = "''ab''" and Read = buffer_Read and t = "''xyz''"
      and buf = "''..''" and ps = "[''cd'', ''ef'']"]
  note b = Cancel_wrappers_check_signal[where closed = "{}" and c = config0
      and Write = buffer_Write and s = "''ab''" and Read = buffer_Read and t = "''xyz''"
      and buf = "''..''" and ps = "[''cd'', ''ef'']"]
  from a f have 1: "write_calls buffer_Write {0} (Writer config0 ''ab'') [''cd'', ''ef'']
     = ([(0, Some ErrInterupt), (0, Some ErrInterupt)], Writer config0 ''ab'')"
    and 2: "CancelReader_Read buffer_Read {0} (Reader config0 ''xyz'') ''..''
     = ((0, Some ErrInterupt, ''..''), Reader config0 ''xyz'')"
    by simp_all
  from b n have w: "write_calls buffer_Write {} (Writer config0 ''ab'') [''cd'', ''ef'']
     = (fst (plain_calls buffer_Write ''ab'' [''cd'', ''ef'']),
        Writer config0 (snd (plain_calls buffer_Write ''ab'' [''cd'', ''ef''])))"
    and r: "CancelReader_Read buffer_Read {} (Reader config0 ''xyz'') ''..''
     = (fst (buffer_Read ''xyz'' ''..''), Reader config0 (snd (buffer_Read ''xyz'' ''..'')))"
    by blast+
  have pc: "plain_calls buffer_Write ''ab'' [''cd'', ''ef''] = ([(2, None), (2, None)], ''abcdef'')"
    by (simp add: buffer_Write_def)
  have br: "buffer_Read ''xyz'' ''..'' = ((2, None, ''xy''), ''z'')"
    by (simp add: buffer_Read_def)
  have 3: "write_calls buffer_Write {} (Writer config0 ''ab'') [''cd'', ''ef'']
     = ([(2, None), (2, None)], Writer config0 ''abcdef'')"
    by (simp only: w pc fst_conv snd_conv)
  have 4: "CancelReader_Read buffer_Read {} (Reader config0 ''xyz'') ''..''
     = ((2, None, ''xy''), Reader config0 ''z'')"
    by (simp only: r br fst_conv snd_conv)
  from 1 2 3 4 show ?thesis by blast
qed

lemma RemoveAll_idem: "RemoveAll (RemoveAll w d) d = RemoveAll w d"
  by (auto simp: RemoveAll_def fun_eq_iff)

lemma Cleanup_idem: "Cleanup c (Cleanup c w) = Cleanup c w"
  by (simp add: Cleanup_def RemoveAll_idem)

text \<open>
  C8, as stated, fails: \<open>Stop\<close> closes the channel, and closing a closed channel
  panics. On a \<open>Config\<close> with a temporary directory the first \<open>Stop\<close> returns; the
  second one, on the state the first one left, panics.
\<close>

theorem Stop_twice_panics:
  "fst (Stop config1 {} disk_tmp) = Returns ()
   \<and> fst (Stop config1 (fst (snd (Stop config1 {} disk_tmp)))
                       (snd (snd (Stop config1 {} disk_tmp))))
     = Panics ''close of closed channel''"
  by (simp add: Stop_def config1_def config0_def)

text \<open>
  C8, amended. On a \<open>Config\<close> whose stop channel is not \<open>nil\<close> and whose signal has
  not been raised, \<open>Stop\<close> returns and the signal is raised afterwards. On a \<open>Config\<close>
  whose signal has already been raised, \<open>Stop\<close> panics with "close of closed
  channel" and the signal stays raised. On a \<open>Config\<close> whose stop channel is \<open>nil\<close>,
  \<open>Stop\<close> panics with "close of nil channel". In every case, panic or not, the file
  system \<open>Stop\<close> leaves is the one \<open>Cleanup\<close> leaves. What is idempotent is \<open>Cleanup\<close>:
  running it twice leaves the file system it leaves when run once.
\<close>

theorem Stop_raises_once:
  "(stop c \<noteq> None \<and> \<not> fired closed (stop c) \<longrightarrow>
      fst (Stop c closed w) = Returns () \<and> fired (fst (snd (Stop c closed w))) (stop c))
   \<and> (fired closed (stop c) \<longrightarrow>
      fst (Stop c closed w) = Panics ''close of closed channel'' \<and>
      fired (fst (snd (Stop c closed w))) (stop c))
   \<and> (stop c = None \<longrightarrow> fst (Stop c closed w) = Panics ''close of nil channel'')
   \<and> snd (snd (Stop c closed w)) = Cleanup c w
   \<and> Cleanup c (Cleanup c w) = Cleanup c w"
  by (auto simp: Stop_def fired_def Cleanup_idem split: option.splits)

text \<open>The amended statement on \<open>config1\<close>: the first \<open>Stop\<close> returns, raises the
  signal and removes the temporary directory with the file in it; a \<open>Stop\<close> with the
  signal raised panics.\<close>

theorem Stop_raises_once_witness:
  "fst (Stop config1 {} disk_tmp) = Returns ()
   \<and> fired (fst (snd (Stop config1 {} disk_tmp))) (stop config1)
   \<and> fst (Stop config1 {0} disk_tmp) = Panics ''close of closed channel''
   \<and> files (snd (snd (Stop config1 {} disk_tmp))) ''/tmp/ova2stemcell-1/image.vmdk'' = None
   \<and> ''/tmp/ova2stemcell-1'' \<notin> dirs (snd (snd (Stop config1 {} disk_tmp)))"
proof -
  have o: "stop config1 \<noteq> None" "\<not> fired {} (stop config1)" "fired {0} (stop config1)"
    by (simp_all add: config1_def config0_def fired_def)
  have cl: "files (Cleanup config1 disk_tmp) ''/tmp/ova2stemcell-1/image.vmdk'' = None"
    "''/tmp/ova2stemcell-1'' \<notin> dirs (Cleanup config1 disk_tmp)"
    by (simp_all add: Cleanup_def RemoveAll_def under_def config1_def config0_def disk_tmp_def)
  from Stop_raises_once[of config1 "{}" disk_tmp] o(1,2)
  have 1: "fst (Stop config1 {} disk_tmp) = Returns ()"
    "fired (fst (snd (Stop config1 {} disk_tmp))) (stop config1)"
    "snd (snd (Stop config1 {} disk_tmp)) = Cleanup config1 disk_tmp"
    by blast+
  from Stop_raises_once[of config1 "{0}" disk_tmp] o(3)
  have 2: "fst (Stop config1 {0} disk_tmp) = Panics ''close of closed channel''"
    by blast
  from 1 2 cl show ?thesis by simp
qed


section \<open>Properties of Config.WriteManifest\<close>

lemma Join_nonempty: "elem \<noteq> [] \<Longrightarrow> Join dir elem \<noteq> []"
  by (simp add: Join_def Clean_nonempty)

lemma Join_tmp_manifest:
  "Join ''/tmp/ova2stemcell-1'' ''stemcell.MF'' = ''/tmp/ova2stemcell-1/stemcell.MF''"
  by (simp add: Join_def Clean_def clean_step_def)

lemma WriteManifest_success:
  assumes "WriteManifest v mk we c w = (Returns None, c', w')"
  shows "Manifest c' \<noteq> [] \<and>
         files w' (Manifest c') = Some \<lparr>fperm = 420, content = manifest_text v (Sha1sum c)\<rparr>"
proof -
  from assms have m: "Manifest c = []"
    by (auto simp: WriteManifest_def split: if_splits)
  obtain res c1 w1 where td: "TempDir mk c w = (res, c1, w1)" by (cases "TempDir mk c w")
  with assms m obtain dir where res: "res = Inr dir"
    by (cases res) (auto simp: WriteManifest_def)
  from td have sha: "Sha1sum c1 = Sha1sum c"
    by (auto simp: TempDir_def split: if_splits sum.splits)
  let ?path = "Join dir ''stemcell.MF''"
  obtain w2 where op: "os_OpenFile_excl w1 ?path 420 = Inr w2"
    using assms m td res
    by (cases "os_OpenFile_excl w1 ?path 420") (auto simp: WriteManifest_def Let_def)
  then have w2: "w2 = w1\<lparr>files := (files w1)(?path \<mapsto> \<lparr>fperm = 420, content = []\<rparr>)\<rparr>"
    by (auto simp: os_OpenFile_excl_def split: if_splits)
  from assms m td res op have we: "we = None" and c': "c' = c1\<lparr>Manifest := ?path\<rparr>"
    and w': "w' = write_file w2 ?path (manifest_text v (Sha1sum c1))"
    by (auto simp: WriteManifest_def Let_def split: option.splits)
  have "Manifest c' \<noteq> []" using c' by (simp add: Join_nonempty)
  moreover have "files w' (Manifest c') = Some \<lparr>fperm = 420, content = manifest_text v (Sha1sum c)\<rparr>"
    using c' w' w2 sha by (simp add: write_file_def)
  ultimately show ?thesis by simp
qed

text \<open>
  C10. On a \<open>Config\<close> whose \<open>Manifest\<close> field is not empty, \<open>WriteManifest\<close> panics
  and leaves the \<open>Config\<close> and the file system as they were: nothing is created or
  written. A call that returns without error has created the manifest file with the
  formatted text and has set the field to its non-empty path, so every later call on
  the resulting \<open>Config\<close>, in whatever file system and with whatever version, panics in
  the same way.
\<close>

theorem WriteManifest_at_most_once:
  "(Manifest c \<noteq> [] \<longrightarrow>
      WriteManifest v mk we c w = (Panics (''already created manifest: '' @ Manifest c), c, w))
   \<and> (WriteManifest v mk we c w = (Returns None, c', w') \<longrightarrow>
      Manifest c' \<noteq> [] \<and>
      files w' (Manifest c') = Some \<lparr>fperm = 420, content = manifest_text v (Sha1sum c)\<rparr> \<and>
      WriteManifest v2 mk2 we2 c' w2 =
        (Panics (''already created manifest: '' @ Manifest c'), c', w2))"
proof (intro conjI impI)
  assume "Manifest c \<noteq> []"
  then show "WriteManifest v mk we c w = (Panics (''already created manifest: '' @ Manifest c), c, w)"
    by (simp add: WriteManifest_def)
next
  assume ok: "WriteManifest v mk we c w = (Returns None, c', w')"
  from WriteManifest_success[OF ok] show "Manifest c' \<noteq> []"
    and "files w' (Manifest c') = Some \<lparr>fperm = 420, content = manifest_text v (Sha1sum c)\<rparr>"
    by simp_all
  then show "WriteManifest v2 mk2 we2 c' w2 =
        (Panics (''already created manifest: '' @ Manifest c'), c', w2)"
    by (simp add: WriteManifest_def)
qed

text \<open>The theorem on \<open>config1\<close>: the first call writes
  \<open>/tmp/ova2stemcell-1/stemcell.MF\<close>, the second panics and changes nothing.\<close>

theorem WriteManifest_at_most_once_witness:
  "fst (WriteManifest ''1.2'' (Inl EOF) None config1 disk_tmp) = Returns None
   \<and> Manifest (fst (snd (WriteManifest ''1.2'' (Inl EOF) None config1 disk_tmp)))
       = ''/tmp/ova2stemcell-1/stemcell.MF''
   \<and> WriteManifest ''1.3'' (Inl EOF) None
        (fst (snd (WriteManifest ''1.2'' (Inl EOF) None config1 disk_tmp)))
        (snd (snd (WriteManifest ''1.2'' (Inl EOF) None config1 disk_tmp)))
     = (Panics ''already created manifest: /tmp/ova2stemcell-1/stemcell.MF'',
        fst (snd (WriteManifest ''1.2'' (Inl EOF) None config1 disk_tmp)),
        snd (snd (WriteManifest ''1.2'' (Inl EOF) None config1 disk_tmp)))"
proof -
  obtain c' w' where run: "WriteManifest ''1.2'' (Inl EOF) None config1 disk_tmp = (Returns None, c', w')"
    and m: "Manifest c' = ''/tmp/ova2stemcell-1/stemcell.MF''"
    by (simp add: WriteManifest_def TempDir_def config1_def config0_def disk_tmp_def
        Join_tmp_manifest os_OpenFile_excl_def parent_def Let_def)
  from WriteManifest_at_most_once[where c = config1 and v = "''1.2''" and mk = "Inl EOF"
        and we = None and w = disk_tmp and c' = c' and w' = w' and ?v2.0 = "''1.3''"
        and ?mk2.0 = "Inl EOF" and ?we2.0 = None and ?w2.0 = w'] run
  have "WriteManifest ''1.3'' (Inl EOF) None c' w' =
        (Panics (''already created manifest: '' @ Manifest c'), c', w')"
    by blast
  with run m show ?thesis by simp
qed

end
